theory Spec2Isabelle
  imports Complex_Main "HOL-Library.Word"
begin

section \<open>The reliability-based CMA-ES learner of pypuf\<close>

text \<open>
  A shallow embedding of \<^verbatim>\<open>src/pypuf/learner/evolution_strategies/cmaes.py\<close>.
  Floating-point numbers are idealised as reals. NumPy and TensorFlow arrays are lists:
  a vector is a list, a matrix is the list of its rows. Every exception the Python can
  raise is a value of the type \<open>error\<close>, returned as \<open>Inl\<close>. The method \<^verbatim>\<open>print_accs\<close>
  only prints and is left out.
\<close>

subsection \<open>Errors and Python slicing\<close>

datatype error = IndexError | ValueError | ShapeError | AttributeError | MemoryError | OverflowError

text \<open>
  \<^verbatim>\<open>xs[start:]\<close> and \<^verbatim>\<open>xs[:stop]\<close>: a negative bound counts from the end, and a bound
  outside the list is clipped rather than raising.
\<close>

definition slice_from :: "int \<Rightarrow> 'a list \<Rightarrow> 'a list" where
  "slice_from start xs =
     (if start < 0 then drop (nat (int (length xs) + start)) xs else drop (nat start) xs)"

definition slice_to :: "int \<Rightarrow> 'a list \<Rightarrow> 'a list" where
  "slice_to stop xs =
     (if stop < 0 then take (nat (int (length xs) + stop)) xs else take (nat stop) xs)"

text \<open>Python's \<^verbatim>\<open>max\<close> and \<^verbatim>\<open>min\<close> of a list raise ValueError on the empty list.\<close>

definition py_max :: "real list \<Rightarrow> error + real" where
  "py_max xs = (case xs of [] \<Rightarrow> Inl ValueError | x # ys \<Rightarrow> Inr (fold max ys x))"

definition py_min :: "real list \<Rightarrow> error + real" where
  "py_min xs = (case xs of [] \<Rightarrow> Inl ValueError | x # ys \<Rightarrow> Inr (fold min ys x))"

subsection \<open>The stagnation predicate\<close>

text \<open>
  \<^verbatim>\<open>is_iteration_stagnated(self, es)\<close> reads \<^verbatim>\<open>self.abort_iter\<close>, \<^verbatim>\<open>self.abort_delta\<close> and
  the history \<^verbatim>\<open>es.fit.hist\<close>; these three are its arguments here. The slice is taken
  before the length test, as in the source; it cannot raise.
\<close>

definition is_iteration_stagnated :: "int \<Rightarrow> real \<Rightarrow> real list \<Rightarrow> error + bool" where
  "is_iteration_stagnated abort_iter abort_delta hist =
     (let fun_history = slice_from (- abort_iter) hist in
      if length hist < 100 then Inr False
      else (case py_max fun_history of
              Inl e \<Rightarrow> Inl e
            | Inr mx \<Rightarrow>
               (case py_min fun_history of
                  Inl e \<Rightarrow> Inl e
                | Inr mn \<Rightarrow> if \<bar>mx - mn\<bar> < abort_delta then Inr True else Inr False)))"

text \<open>
  The words of the specification: the most recent \<open>w\<close> entries of a history kept in
  chronological order, and the spread of a window.
\<close>

definition most_recent :: "nat \<Rightarrow> real list \<Rightarrow> real list" where
  "most_recent w hist = drop (length hist - w) hist"

definition spread :: "real list \<Rightarrow> real" where
  "spread window = Max (set window) - Min (set window)"

subsection \<open>Sign canonicalisation\<close>

text \<open>
  \<^verbatim>\<open>w = -w if w[0] < 0 else w\<close> in \<^verbatim>\<open>learn\<close>; reading \<^verbatim>\<open>w[0]\<close> of an empty vector raises
  IndexError.
\<close>

definition negate :: "real list \<Rightarrow> real list" where
  "negate w = map uminus w"

definition canonicalize :: "real list \<Rightarrow> error + real list" where
  "canonicalize w =
     (case w of [] \<Rightarrow> Inl IndexError | w0 # _ \<Rightarrow> Inr (if w0 < 0 then negate w else w))"

subsection \<open>Reliability of the PUF\<close>

text \<open>
  \<^verbatim>\<open>reliabilities_PUF(response_bits)\<close>. The matrix is cast to int8 first, so its entries
  are 8-bit words here. \<^verbatim>\<open>np.array\<close> raises ValueError on rows of different lengths;
  \<^verbatim>\<open>shape[1]\<close> raises IndexError on the empty list, whose array has one dimension.
  \<^verbatim>\<open>np.sum\<close> adds int8 entries in the platform integer, so the row sum is the sum of
  the signed values and does not wrap. \<^verbatim>\<open>transform_challenge_11_to_01\<close> is imported from
  \<^verbatim>\<open>pypuf.tools\<close>, which is not among the sources: it is the parameter \<open>to01\<close>, applied
  to every entry.
\<close>

type_synonym int8 = "8 word"

definition np_array :: "'a list list \<Rightarrow> error + 'a list list" where
  "np_array m = (if \<forall>r \<in> set m. length r = length (hd m) then Inr m else Inl ValueError)"

definition shape1 :: "'a list list \<Rightarrow> error + nat" where
  "shape1 m = (case m of [] \<Rightarrow> Inl IndexError | r # _ \<Rightarrow> Inr (length r))"

definition reliabilities_PUF :: "(int8 \<Rightarrow> int8) \<Rightarrow> int8 list list \<Rightarrow> error + real list" where
  "reliabilities_PUF to01 response_bits =
     (case np_array response_bits of
        Inl e \<Rightarrow> Inl e
      | Inr arr \<Rightarrow>
          let bits = (if \<exists>row \<in> set arr. - 1 \<in> set row then map (map to01) arr else arr)
          in (case shape1 bits of
                Inl e \<Rightarrow> Inl e
              | Inr m \<Rightarrow>
                  Inr (map (\<lambda>row. \<bar>real m / 2 - real_of_int (sum_list (map sint row))\<bar>)
                         bits)))"

text \<open>
  The words of the specification: a response matrix is given in one of two encodings,
  and its rows are normalised to \<open>{0, 1}\<close> before they are summed.
\<close>

datatype encoding = PlusMinusOne | ZeroOne

definition encoded :: "encoding \<Rightarrow> int8 list list \<Rightarrow> bool" where
  "encoded e response_bits =
     (\<forall>row \<in> set response_bits.
        set row \<subseteq> (case e of PlusMinusOne \<Rightarrow> {1, - 1} | ZeroOne \<Rightarrow> {0, 1}))"

definition normalized_sum :: "(int8 \<Rightarrow> int8) \<Rightarrow> encoding \<Rightarrow> int8 list \<Rightarrow> int" where
  "normalized_sum to01 e row =
     sum_list (map sint (case e of PlusMinusOne \<Rightarrow> map to01 row | ZeroOne \<Rightarrow> row))"

definition score :: "(int8 \<Rightarrow> int8) \<Rightarrow> encoding \<Rightarrow> nat \<Rightarrow> int8 list \<Rightarrow> real" where
  "score to01 e m row = \<bar>real m / 2 - real_of_int (normalized_sum to01 e row)\<bar>"

subsection \<open>Vectors and matrices\<close>

definition dot :: "real list \<Rightarrow> real list \<Rightarrow> real" where
  "dot u v = sum_list (map2 (*) u v)"

text \<open>
  \<^verbatim>\<open>reduce_mean\<close> of an empty vector is NaN in TensorFlow; it is only ever subtracted
  from the entries of that same vector, of which there are none.
\<close>

definition mean :: "real list \<Rightarrow> real" where
  "mean xs = sum_list xs / real (length xs)"

definition centered :: "real list \<Rightarrow> real list" where
  "centered xs = map (\<lambda>v. v - mean xs) xs"

definition sum_squares :: "real list \<Rightarrow> real" where
  "sum_squares xs = sum_list (map (\<lambda>v. v\<^sup>2) xs)"

text \<open>
  \<^verbatim>\<open>tf.linalg.matmul(a, b.T)\<close>: entry \<open>(i, j)\<close> is the dot product of row \<open>i\<close> of \<open>a\<close> and
  row \<open>j\<close> of \<open>b\<close>; the rows must have the same length. A matrix is held as the list
  of its rows, so the column count of a matrix without rows is not represented and is
  taken to fit.
\<close>

definition matmul_T :: "real list list \<Rightarrow> real list list \<Rightarrow> error + real list list" where
  "matmul_T a b =
     (if \<exists>u \<in> set a. \<exists>v \<in> set b. length u \<noteq> length v then Inl ShapeError
      else Inr (map (\<lambda>u. map (\<lambda>v. dot u v) b) a))"

subsection \<open>Reliability of the model and the correlation\<close>

text \<open>
  \<^verbatim>\<open>reliabilities_MODEL(delay_diffs, EPSILON)\<close>: \<open>delay_diffs\<close> has one row per candidate
  and one column per challenge. The source transposes it and compares it with the
  vector \<open>EPSILON\<close>, which NumPy broadcasts along the candidates. The transposed
  matrix, of shape (challenges, candidates), is held here as the list of its columns:
  one vector per candidate. Broadcasting accepts equal lengths or a length of one on
  either side; the default \<^verbatim>\<open>EPSILON=3\<close> is the one-element vector \<open>[3]\<close>, and
  \<^verbatim>\<open>objective\<close> always passes the epsilons of the candidates.
\<close>

definition reliabilities_MODEL :: "real list list \<Rightarrow> real list \<Rightarrow> error + bool list list" where
  "reliabilities_MODEL delay_diffs EPSILON =
     (if length delay_diffs = length EPSILON
      then Inr (map2 (\<lambda>d e. map (\<lambda>v. e < \<bar>v\<bar>) d) delay_diffs EPSILON)
      else if length EPSILON = 1
      then Inr (map (\<lambda>d. map (\<lambda>v. hd EPSILON < \<bar>v\<bar>) d) delay_diffs)
      else if length delay_diffs = 1
      then Inr (map (\<lambda>e. map (\<lambda>v. e < \<bar>v\<bar>) (hd delay_diffs)) EPSILON)
      else Inl ShapeError)"

text \<open>
  \<^verbatim>\<open>tf_pearsonr(x, y)\<close>: \<open>x\<close> has shape (challenges, candidates) and is held as the list of
  its columns; the reductions along axis 0 act within each column. \<^verbatim>\<open>tensordot\<close> needs
  \<open>y\<close> and the columns of \<open>x\<close> to have the same length. The division is a
  floating-point division: where \<open>auto_cov\<close> is zero, \<open>cov_xy\<close> is zero as well and the
  quotient is NaN, which is \<open>None\<close> here.
\<close>

definition tf_pearsonr :: "real list list \<Rightarrow> real list \<Rightarrow> error + real option list" where
  "tf_pearsonr x y =
     (let centered_y = centered y in
      if \<exists>col \<in> set x. length col \<noteq> length y then Inl ShapeError
      else Inr (map (\<lambda>col.
                  let centered_x = centered col;
                      cov_xy = dot centered_y centered_x;
                      auto_cov = sqrt (sum_squares centered_x * sum_squares centered_y)
                  in if auto_cov = 0 then None else Some (cov_xy / auto_cov)) x))"

subsection \<open>The learner object\<close>

record training_set =
  challenges :: "int8 list list"
  responses :: "int8 list list"

text \<open>
  The attributes of \<^verbatim>\<open>ReliabilityBasedCMAES\<close>, each prefixed with \<open>self_\<close>. The
  combiner and the logger are only stored and passed on; their types are parameters.
  \<^verbatim>\<open>self.prng\<close> is represented by the seed it was created from. \<^verbatim>\<open>current_challenges\<close>
  does not exist until \<^verbatim>\<open>learn\<close> assigns it: it is \<open>None\<close> until then.
\<close>

record ('c, 'l) learner =
  self_training_set :: training_set
  self_k :: int
  self_n :: int
  self_transform :: "int8 list list \<Rightarrow> int \<Rightarrow> error + real list list list"
  self_combiner :: 'c
  self_pop_size :: int
  self_abort_delta :: real
  self_abort_iter :: int
  self_prng :: int
  self_chains_learned :: "real list list"
  self_num_iterations :: nat
  self_stops :: string
  self_num_abortions :: nat
  self_num_learned :: nat
  self_logger :: 'l
  self_puf_reliabilities :: "real list"
  self_linearized_challenges :: "real list list list"
  self_current_challenges :: "real list list option"

text \<open>
  \<^verbatim>\<open>objective(self, state)\<close>. \<^verbatim>\<open>state[:, -1]\<close> raises IndexError on a population whose rows
  are empty; reading \<^verbatim>\<open>self.current_challenges\<close> before \<^verbatim>\<open>learn\<close> has assigned it raises
  AttributeError. The cost of a candidate is NaN (\<open>None\<close>) where its correlation is.
\<close>

definition objective :: "('c, 'l) learner \<Rightarrow> real list list \<Rightarrow> error + real option list" where
  "objective self state =
     (let weights = map (slice_to (self_n self)) state in
      if \<exists>row \<in> set state. row = [] then Inl IndexError
      else
        let epsilon = map last state in
        (case self_current_challenges self of
           None \<Rightarrow> Inl AttributeError
         | Some current_challenges \<Rightarrow>
            (case matmul_T weights current_challenges of
               Inl e \<Rightarrow> Inl e
             | Inr delay_diffs \<Rightarrow>
                (case reliabilities_MODEL delay_diffs epsilon of
                   Inl e \<Rightarrow> Inl e
                 | Inr model_reliabilities \<Rightarrow>
                    let x = map (map (\<lambda>b. if b then 1 else 0)) model_reliabilities;
                        y = self_puf_reliabilities self
                    in (case tf_pearsonr x y of
                          Inl e \<Rightarrow> Inl e
                        | Inr corr \<Rightarrow> Inr (map (map_option (\<lambda>c. \<bar>1 - c\<bar>)) corr))))))"

text \<open>
  The words of the specification: the model reliability indicator vector of a
  candidate (one entry per challenge: is the absolute delay difference above the
  candidate's epsilon), and the Pearson correlation coefficient of two vectors, the
  covariance over the product of the standard deviations. A vector has nonzero
  variance when its squared deviations from the mean do not sum to zero.
\<close>

definition indicator :: "int \<Rightarrow> real list list \<Rightarrow> real list \<Rightarrow> real list" where
  "indicator n cs candidate =
     map (\<lambda>c. if last candidate < \<bar>dot (slice_to n candidate) c\<bar> then 1 else 0) cs"

definition sum_sq_dev :: "real list \<Rightarrow> real" where
  "sum_sq_dev xs = (\<Sum>v \<leftarrow> xs. (v - mean xs)\<^sup>2)"

definition pearson :: "real list \<Rightarrow> real list \<Rightarrow> real" where
  "pearson xs ys =
     (\<Sum>(a, b) \<leftarrow> zip xs ys. (a - mean xs) * (b - mean ys)) /
       (sqrt (sum_sq_dev xs) * sqrt (sum_sq_dev ys))"

subsection \<open>Construction of the learner\<close>


definition init ::
  "(int8 \<Rightarrow> int8) \<Rightarrow> (int \<Rightarrow> int \<Rightarrow> error + real list list) \<Rightarrow> training_set \<Rightarrow> int \<Rightarrow> int \<Rightarrow>
   (int8 list list \<Rightarrow> int \<Rightarrow> error + real list list list) \<Rightarrow> 'c \<Rightarrow> int \<Rightarrow> real \<Rightarrow> int \<Rightarrow> int \<Rightarrow> 'l \<Rightarrow>
   error + ('c, 'l) learner" where
  "init to01 zeros ts k n transform combiner pop_size abort_delta abort_iter random_seed logger =
     (if random_seed < 0 \<or> 2 ^ 32 \<le> random_seed then Inl ValueError
      else
        (case zeros k n of
           Inl e \<Rightarrow> Inl e
         | Inr chains_learned \<Rightarrow>
            (case reliabilities_PUF to01 (responses ts) of
               Inl e \<Rightarrow> Inl e
             | Inr puf_reliabilities \<Rightarrow>
                (case transform (challenges ts) k of
                   Inl e \<Rightarrow> Inl e
                 | Inr linearized_challenges \<Rightarrow>
                    Inr \<lparr> self_training_set = ts, self_k = k, self_n = n,
                          self_transform = transform, self_combiner = combiner,
                          self_pop_size = pop_size, self_abort_delta = abort_delta,
                          self_abort_iter = abort_iter, self_prng = random_seed,
                          self_chains_learned = chains_learned,
                          self_num_iterations = 0, self_stops = [], self_num_abortions = 0,
                          self_num_learned = 0, self_logger = logger,
                          self_puf_reliabilities = puf_reliabilities,
                          self_linearized_challenges = linearized_challenges,
                          self_current_challenges = None \<rparr>))))"

subsection \<open>Chain search and model assembly\<close>

text \<open>
  \<^verbatim>\<open>scipy.stats.pearsonr(x, y)[0]\<close>, a library function: it raises ValueError for
  vectors of different lengths or of fewer than two entries, returns NaN (\<open>None\<close>) when
  one of them is constant, and the sample correlation coefficient otherwise.
\<close>

definition pearsonr :: "real list \<Rightarrow> real list \<Rightarrow> error + real option" where
  "pearsonr x y =
     (if length x \<noteq> length y then Inl ValueError
      else if length x < 2 then Inl ValueError
      else if (\<forall>v \<in> set x. v = hd x) \<or> (\<forall>v \<in> set y. v = hd y) then Inr None
      else Inr (Some (dot (centered x) (centered y) /
                      (sqrt (sum_squares (centered x)) * sqrt (sum_squares (centered y))))))"

text \<open>
  The \<^verbatim>\<open>for v in pool: if abs(pearsonr(w, v)[0]) > 0.5: break / else:\<close> of \<^verbatim>\<open>learn\<close>: True
  when the loop runs to its end. A comparison with NaN is False.
\<close>

fun chain_is_new :: "real list \<Rightarrow> real list list \<Rightarrow> error + bool" where
  "chain_is_new w [] = Inr True"
| "chain_is_new w (v # pool) =
     (case pearsonr w v of
        Inl e \<Rightarrow> Inl e
      | Inr None \<Rightarrow> chain_is_new w pool
      | Inr (Some r) \<Rightarrow> if 1 / 2 < \<bar>r\<bar> then Inr False else chain_is_new w pool)"

text \<open>
  Modelled from the spec: the class \<^verbatim>\<open>LTFArray\<close> of \<^verbatim>\<open>pypuf.simulation\<close> is not among
  the sources. The specification describes the model as an object exposing the weight
  matrix (one row per chain) and the same transform and combiner.
\<close>

record ('t, 'c) ltf_array =
  weight_array :: "real list list"
  model_transform :: 't
  model_combiner :: 'c

definition LTFArray :: "real list list \<Rightarrow> 't \<Rightarrow> 'c \<Rightarrow> ('t, 'c) ltf_array" where
  "LTFArray weights t c = \<lparr> weight_array = weights, model_transform = t, model_combiner = c \<rparr>"

text \<open>
  \<^verbatim>\<open>self.linearized_challenges[:, n_chain, :]\<close>: the row \<open>n_chain\<close> of the matrix of every
  challenge; IndexError when a matrix has no such row. The list of no challenges
  does not represent the shape of the array and is taken to have the row.
\<close>

definition chain_challenges :: "real list list list \<Rightarrow> nat \<Rightarrow> error + real list list" where
  "chain_challenges linearized n_chain =
     (if \<exists>m \<in> set linearized. length m \<le> n_chain then Inl IndexError
      else Inr (map (\<lambda>m. m ! n_chain) linearized))"

text \<open>
  One pass of the body of \<^verbatim>\<open>while n_chain < self.k\<close>. The optimizer \<^verbatim>\<open>CMA\<close> is a library
  that draws random populations: \<open>search self i\<close> stands for what the \<open>i\<close>-th call of
  \<^verbatim>\<open>cma.search()\<close> returns as its best point (or raises) on the learner as it is then.
  The loop state is the learner, the pool and \<open>n_chain\<close>.
\<close>

type_synonym ('c, 'l) loop_state = "('c, 'l) learner \<times> real list list \<times> nat"

definition iteration ::
  "(('c, 'l) learner \<Rightarrow> nat \<Rightarrow> error + real list) \<Rightarrow> nat \<Rightarrow> ('c, 'l) loop_state \<Rightarrow>
   error + ('c, 'l) loop_state" where
  "iteration search i st =
     (case st of (self, pool, n_chain) \<Rightarrow>
        (case chain_challenges (self_linearized_challenges self) n_chain of
           Inl e \<Rightarrow> Inl e
         | Inr cc \<Rightarrow>
            let self' = self \<lparr> self_current_challenges := Some cc \<rparr> in
            (case search self' i of
               Inl e \<Rightarrow> Inl e
             | Inr best \<Rightarrow>
                (case canonicalize (slice_to (- 1) best) of
                   Inl e \<Rightarrow> Inl e
                 | Inr w \<Rightarrow>
                    (case chain_is_new w pool of
                       Inl e \<Rightarrow> Inl e
                     | Inr new \<Rightarrow>
                        if new then Inr (self', pool @ [w], n_chain + 1)
                        else Inr (self', pool, n_chain))))))"

text \<open>
  The loop may run forever: it is given \<open>fuel\<close>, the number of passes it may make,
  and returns \<open>None\<close> when the fuel runs out before \<open>n_chain\<close> reaches \<open>k\<close>.
\<close>

fun learn_loop ::
  "(('c, 'l) learner \<Rightarrow> nat \<Rightarrow> error + real list) \<Rightarrow> nat \<Rightarrow> nat \<Rightarrow> ('c, 'l) loop_state \<Rightarrow>
   (error + ('c, 'l) loop_state) option" where
  "learn_loop search 0 i (self, pool, n_chain) =
     (if int n_chain < self_k self then None else Some (Inr (self, pool, n_chain)))"
| "learn_loop search (Suc fuel) i (self, pool, n_chain) =
     (if int n_chain < self_k self
      then (case iteration search i (self, pool, n_chain) of
              Inl e \<Rightarrow> Some (Inl e)
            | Inr st \<Rightarrow> learn_loop search fuel (Suc i) st)
      else Some (Inr (self, pool, n_chain)))"

text \<open>
  The states of the loop: \<open>loop_reaches search learner i st\<close> holds when the loop started
  on \<open>learner\<close> stands at its head in state \<open>st\<close> after \<open>i\<close> passes.
\<close>

inductive loop_reaches ::
  "(('c, 'l) learner \<Rightarrow> nat \<Rightarrow> error + real list) \<Rightarrow> ('c, 'l) learner \<Rightarrow> nat \<Rightarrow>
   ('c, 'l) loop_state \<Rightarrow> bool"
  for search learner where
    start: "loop_reaches search learner 0 (learner, [], 0)"
  | pass: "loop_reaches search learner i (self, pool, n_chain) \<Longrightarrow> int n_chain < self_k self \<Longrightarrow>
           iteration search i (self, pool, n_chain) = Inr st \<Longrightarrow>
           loop_reaches search learner (Suc i) st"

text \<open>
  The end of \<^verbatim>\<open>learn\<close>: the model is built from the pool and tested; below an accuracy
  of 0.5 the first chain is negated and the model built again. \<^verbatim>\<open>test_model\<close> compares
  \<^verbatim>\<open>LTFArray.eval\<close> with the majority vote of \<^verbatim>\<open>scipy.stats.mode\<close>, neither of which is
  among the sources; \<^verbatim>\<open>learn\<close> uses only the number it returns, so it is a parameter.
  \<^verbatim>\<open>pool[0]\<close> raises IndexError on an empty pool.
\<close>

definition assemble ::
  "((int8 list list \<Rightarrow> int \<Rightarrow> error + real list list list, 'c) ltf_array \<Rightarrow> error + real) \<Rightarrow>
   ('c, 'l) learner \<Rightarrow> real list list \<Rightarrow>
   error + (int8 list list \<Rightarrow> int \<Rightarrow> error + real list list list, 'c) ltf_array" where
  "assemble test_model self pool =
     (case np_array pool of
        Inl e \<Rightarrow> Inl e
      | Inr weights \<Rightarrow>
         let model = LTFArray weights (self_transform self) (self_combiner self) in
         (case test_model model of
            Inl e \<Rightarrow> Inl e
          | Inr accuracy \<Rightarrow>
             if accuracy < 1 / 2
             then (case pool of
                     [] \<Rightarrow> Inl IndexError
                   | first # rest \<Rightarrow>
                      (case np_array (negate first # rest) of
                         Inl e \<Rightarrow> Inl e
                       | Inr weights' \<Rightarrow>
                          Inr (LTFArray weights' (self_transform self) (self_combiner self))))
             else Inr model))"

definition learn ::
  "(('c, 'l) learner \<Rightarrow> nat \<Rightarrow> error + real list) \<Rightarrow>
   ((int8 list list \<Rightarrow> int \<Rightarrow> error + real list list list, 'c) ltf_array \<Rightarrow> error + real) \<Rightarrow>
   nat \<Rightarrow> ('c, 'l) learner \<Rightarrow>
   (error + (int8 list list \<Rightarrow> int \<Rightarrow> error + real list list list, 'c) ltf_array) option" where
  "learn search test_model fuel self =
     (case learn_loop search fuel 0 (self, [], 0) of
        None \<Rightarrow> None
      | Some (Inl e) \<Rightarrow> Some (Inl e)
      | Some (Inr (self', pool, n_chain)) \<Rightarrow> Some (assemble test_model self' pool))"

text \<open>
  The words of the specification: two chains are correlated when their absolute
  Pearson correlation exceeds 0.5, and a pool is free of duplicates when no two of its
  members, at different positions, are correlated.
\<close>

definition correlated :: "real list \<Rightarrow> real list \<Rightarrow> bool" where
  "correlated a b = (case pearsonr a b of Inr (Some r) \<Rightarrow> 1 / 2 < \<bar>r\<bar> | _ \<Rightarrow> False)"

definition uncorrelated :: "real list list \<Rightarrow> bool" where
  "uncorrelated pool =
     (\<forall>i < length pool. \<forall>j < length pool. i \<noteq> j \<longrightarrow> \<not> correlated (pool ! i) (pool ! j))"

subsection \<open>Example data\<close>

text \<open>
  A small training set (two challenges of three stages, two measurements each: the
  first split, the second agreeing), the transform that gives every chain the
  challenge itself, the normalisation of responses that sends \<open>+1\<close> to 0, an
  allocator with room for \<open>2\<^sup>3\<^sup>0\<close> numbers, and the
  learner that \<^verbatim>\<open>__init__\<close> builds from them for two chains, before and after the first
  pass of the loop of \<^verbatim>\<open>learn\<close> has assigned \<^verbatim>\<open>current_challenges\<close>.
\<close>

definition example_to01 :: "int8 \<Rightarrow> int8" where
  "example_to01 b = (if b = 1 then 0 else 1)"

definition example_zeros :: "int \<Rightarrow> int \<Rightarrow> error + real list list" where
  "example_zeros k n =
     (if k < 0 \<or> n < 0 then Inl ValueError
      else if 2 ^ 30 < k * n then Inl MemoryError
      else Inr (replicate (nat k) (replicate (nat n) 0)))"

definition example_transform :: "int8 list list \<Rightarrow> int \<Rightarrow> error + real list list list" where
  "example_transform cs k = Inr (map (\<lambda>c. replicate (nat k) (map (\<lambda>b. real_of_int (sint b)) c)) cs)"

definition example_training_set :: training_set where
  "example_training_set =
     \<lparr> challenges = [[1, 1, 1], [1, - 1, 1]], responses = [[1, - 1], [1, 1]] \<rparr>"

definition initial_learner :: "(unit, unit) learner" where
  "initial_learner =
     \<lparr> self_training_set = example_training_set,
       self_k = 2, self_n = 3, self_transform = example_transform, self_combiner = (),
       self_pop_size = 3, self_abort_delta = 1 / 100, self_abort_iter = 10, self_prng = 1,
       self_chains_learned = [[0, 0, 0], [0, 0, 0]], self_num_iterations = 0, self_stops = [],
       self_num_abortions = 0, self_num_learned = 0, self_logger = (),
       self_puf_reliabilities = [0, 1],
       self_linearized_challenges = [[[1, 1, 1], [1, 1, 1]], [[1, - 1, 1], [1, - 1, 1]]],
       self_current_challenges = None \<rparr>"

definition example_learner :: "(unit, unit) learner" where
  "example_learner = initial_learner \<lparr> self_current_challenges := Some [[1, 1, 1], [1, - 1, 1]] \<rparr>"

text \<open>
  An optimizer that returns a chain, then the same chain again, then a chain that is
  not correlated with it.
\<close>

definition example_search :: "(unit, unit) learner \<Rightarrow> nat \<Rightarrow> error + real list" where
  "example_search self i =
     (if i = 0 then Inr [- 1, 1, 0, 2] else if i = 1 then Inr [1, - 1, 0, 2]
      else Inr [1, 1, - 2, 2])"

section \<open>Properties\<close>

subsection \<open>Helper facts\<close>

lemma py_max_eq: "xs \<noteq> [] \<Longrightarrow> py_max xs = Inr (Max (set xs))"
proof (cases xs)
  case (Cons a list)
  then show "py_max xs = Inr (Max (set xs))"
    using Max.set_eq_fold [of a list] by (simp add: py_max_def)
qed simp

lemma py_min_eq: "xs \<noteq> [] \<Longrightarrow> py_min xs = Inr (Min (set xs))"
proof (cases xs)
  case (Cons a list)
  then show "py_min xs = Inr (Min (set xs))"
    using Min.set_eq_fold [of a list] by (simp add: py_min_def)
qed simp

lemma slice_from_window:
  "0 < a \<Longrightarrow> slice_from (- a) hist = most_recent (nat a) hist"
  by (simp add: slice_from_def most_recent_def nat_diff_distrib')

lemma most_recent_nonempty: "0 < w \<Longrightarrow> hist \<noteq> [] \<Longrightarrow> most_recent w hist \<noteq> []"
  by (cases hist) (auto simp: most_recent_def)

lemma spread_nonneg: "window \<noteq> [] \<Longrightarrow> 0 \<le> spread window"
  by (simp add: spread_def)

lemma slice_last: "hist \<noteq> [] \<Longrightarrow> slice_from (- 1) hist = [last hist]"
proof -
  assume h: "hist \<noteq> []"
  have "drop (length hist - 1) hist = drop (length (butlast hist)) (butlast hist @ [last hist])"
    using h by simp
  also have "\<dots> = [last hist]" by simp
  finally show ?thesis using h by (simp add: slice_from_def nat_diff_distrib')
qed

lemma stagnated_window_of_one:
  assumes "100 \<le> length hist" and "0 < d"
  shows "is_iteration_stagnated 1 d hist = Inr True"
proof -
  have "hist \<noteq> []" using assms(1) by auto
  then have w: "slice_from (- 1) hist = [last hist]" by (rule slice_last)
  show ?thesis using assms
    by (simp add: is_iteration_stagnated_def w py_max_def py_min_def)
qed

lemma stagnated_eq_spread:
  assumes "0 < a"
  shows "is_iteration_stagnated a d hist =
         Inr (100 \<le> length hist \<and> spread (most_recent (nat a) hist) < d)"
proof (cases "length hist < 100")
  case True
  then show ?thesis by (simp add: is_iteration_stagnated_def)
next
  case False
  then have "hist \<noteq> []" by auto
  with assms have ne: "most_recent (nat a) hist \<noteq> []" by (simp add: most_recent_nonempty)
  have "\<bar>spread (most_recent (nat a) hist)\<bar> = spread (most_recent (nat a) hist)"
    using spread_nonneg [OF ne] by simp
  then show ?thesis using False assms
    by (simp add: is_iteration_stagnated_def slice_from_window py_max_eq [OF ne]
        py_min_eq [OF ne] spread_def Let_def)
qed

lemma decreasing_Max: "sorted_wrt (>) xs \<Longrightarrow> xs \<noteq> [] \<Longrightarrow> Max (set xs) = hd (xs::real list)"
  by (cases xs) (auto intro!: Max_eqI simp: less_imp_le)

lemma decreasing_Min: "sorted_wrt (>) xs \<Longrightarrow> xs \<noteq> [] \<Longrightarrow> Min (set xs) = last (xs::real list)"
proof (induction xs)
  case (Cons a list)
  show ?case
  proof (cases "list = []")
    case False
    with Cons have "Min (set list) = last list" by simp
    moreover have "last list < a" using Cons.prems False by auto
    ultimately show ?thesis using False by (simp add: min_def)
  qed simp
qed simp

lemma decreasing_countdown: "sorted_wrt (>) (rev (map real [0..<n]))"
  by (simp add: sorted_wrt_rev sorted_wrt_map)

subsection \<open>The stagnation rule\<close>

text \<open>
  Claim C4. For a window size \<open>abort_iter\<close> of at least one, the stagnation predicate
  returns True exactly when the history holds at least 100 entries and the spread
  (maximum minus minimum) of its most recent \<open>abort_iter\<close> entries is strictly below
  \<open>abort_delta\<close>; with fewer than 100 entries it returns False whatever the window and
  the threshold are. (A window size is a positive count: \<^verbatim>\<open>hist[-0:]\<close> is the whole
  history in Python, and a negative \<open>abort_iter\<close> drops leading entries instead.)
\<close>

theorem stagnation_iff_small_spread:
  "length hist < 100 \<or> 0 < abort_iter \<Longrightarrow>
   is_iteration_stagnated abort_iter abort_delta hist =
     Inr (100 \<le> length hist \<and> spread (most_recent (nat abort_iter) hist) < abort_delta)"
proof (cases "0 < abort_iter")
  case True
  then show ?thesis by (rule stagnated_eq_spread)
next
  case False
  assume "length hist < 100 \<or> 0 < abort_iter"
  with False have "length hist < 100" by simp
  then show ?thesis by (simp add: is_iteration_stagnated_def)
qed

theorem stagnation_iff_small_spread_witness:
  "is_iteration_stagnated 10 1 (replicate 100 5) = Inr True \<and>
   is_iteration_stagnated 10 1 (replicate 100 5 @ [7]) = Inr False \<and>
   is_iteration_stagnated 10 1 (replicate 99 5) = Inr False"
  using stagnation_iff_small_spread [of "replicate 100 5" 10 1]
    stagnation_iff_small_spread [of "replicate 100 5 @ [7]" 10 1]
    stagnation_iff_small_spread [of "replicate 99 5" 10 1]
  by (simp add: most_recent_def spread_def)

text \<open>
  Claim C5 as stated fails: a strictly decreasing history of 101 entries triggers
  stagnation for the window size 1 and the threshold 1.
\<close>

theorem improving_history_counterexample:
  "sorted_wrt (>) (rev (map real [0..<101])) \<and> 100 < length (rev (map real [0..<101])) \<and>
   is_iteration_stagnated 1 1 (rev (map real [0..<101])) = Inr True"
  by (simp add: decreasing_countdown stagnated_window_of_one)

text \<open>
  Claim C5, as amended. On a strictly decreasing history of more than 100 entries and
  for a window size of at least one, the predicate returns True exactly when the
  improvement across the window (its oldest entry minus the newest entry of the
  history) is strictly below \<open>abort_delta\<close>. So it returns False whenever
  \<open>abort_delta\<close> is at most that improvement, and True otherwise.
\<close>

theorem improving_history_stagnation:
  assumes "sorted_wrt (>) hist" and "100 < length hist" and "0 < abort_iter"
  shows "is_iteration_stagnated abort_iter abort_delta hist =
         Inr (hd (most_recent (nat abort_iter) hist) - last hist < abort_delta)"
proof -
  let ?w = "most_recent (nat abort_iter) hist"
  have "hist \<noteq> []" using assms(2) by auto
  with assms(3) have ne: "?w \<noteq> []" by (simp add: most_recent_nonempty)
  have dec: "sorted_wrt (>) ?w"
    using assms(1) by (simp add: most_recent_def sorted_wrt_drop)
  have "last ?w = last hist"
    using ne by (simp add: most_recent_def)
  then have "spread ?w = hd ?w - last hist"
    using decreasing_Max [OF dec ne] decreasing_Min [OF dec ne] by (simp add: spread_def)
  then show ?thesis
    using stagnated_eq_spread [OF assms(3), of abort_delta hist] assms(2) by simp
qed

theorem improving_history_stagnation_witness:
  "is_iteration_stagnated 2 1 (rev (map real [0..<101])) = Inr False \<and>
   is_iteration_stagnated 2 (3 / 2) (rev (map real [0..<101])) = Inr True"
proof -
  have w: "most_recent 2 (rev (map real [0..<101])) = [1, 0]"
    by (simp add: most_recent_def drop_rev take_map upt_rec)
  have l: "last (rev (map real [0..<101])) = 0"
    by (simp add: last_rev hd_map upt_rec)
  show ?thesis
    using improving_history_stagnation [of "rev (map real [0..<101])" 2 1]
      improving_history_stagnation [of "rev (map real [0..<101])" 2 "3 / 2"]
    by (simp add: decreasing_countdown w l)
qed

subsection \<open>Sign canonicalisation\<close>

text \<open>
  Claim C7 as stated fails where the first element is zero: the negation of \<open>[0, 1]\<close>
  has first element 0, which is not negative, so it is returned as it is.
\<close>

theorem canonicalize_negation_counterexample:
  "0 \<le> hd [0, 1 :: real] \<and> canonicalize (negate [0, 1]) = Inr [0, - 1] \<and>
   canonicalize (negate [0, 1]) \<noteq> Inr [0, 1]"
  by (simp add: canonicalize_def negate_def)

text \<open>
  Claim C7, as amended. Canonicalisation is idempotent; a non-empty vector with
  non-negative first element is returned unchanged; for a vector with strictly
  positive first element, canonicalising its negation returns the vector; with first
  element zero, the negation is returned unchanged.
\<close>

theorem canonicalize_idempotent:
  "(canonicalize w = Inr w' \<longrightarrow> canonicalize w' = Inr w') \<and>
   (w \<noteq> [] \<and> 0 \<le> hd w \<longrightarrow> canonicalize w = Inr w) \<and>
   (w \<noteq> [] \<and> 0 < hd w \<longrightarrow> canonicalize (negate w) = Inr w) \<and>
   (w \<noteq> [] \<and> hd w = 0 \<longrightarrow> canonicalize (negate w) = Inr (negate w))"
  by (cases w) (auto simp: canonicalize_def negate_def comp_def split: if_splits)

theorem canonicalize_idempotent_witness:
  "canonicalize [- 2, 3] = Inr [2, - 3] \<and> canonicalize [2, - 3] = Inr [2, - 3] \<and>
   canonicalize (negate [2, - 3]) = Inr [2, - 3] \<and>
   canonicalize (negate [0, 1]) = Inr (negate [0, 1])"
proof -
  have a: "canonicalize [- 2, 3] = Inr [2, - 3]"
    by (simp add: canonicalize_def negate_def)
  show ?thesis
    using canonicalize_idempotent [of "[- 2, 3]" "[2, - 3]"]
      canonicalize_idempotent [of "[2, - 3]" "[2, - 3]"]
      canonicalize_idempotent [of "[0, 1]" "[0, 1]"]
    by (simp add: a)
qed

subsection \<open>Reliability of the PUF\<close>

lemma two_valued_sum:
  "set row \<subseteq> {a, b} \<Longrightarrow> a \<noteq> b \<Longrightarrow>
   sum_list (map f row) = int (count_list row a) * f a + (int (length row) - int (count_list row a)) * (f b :: int)"
  by (induction row) (auto simp: algebra_simps)

lemma count_list_le_length: "count_list xs x \<le> length xs"
  by (induction xs) auto

lemma count_list_replicate: "count_list (replicate m v) x = (if v = x then m else 0)"
  by (induction m) auto

lemma normalized_sum_count:
  assumes "set row \<subseteq> (case e of PlusMinusOne \<Rightarrow> {1, - 1} | ZeroOne \<Rightarrow> {0, 1})"
    and "to01 1 \<in> {0, 1}" and "to01 (- 1) = 1 - to01 1"
  shows "normalized_sum to01 e row = int (count_list row 1) \<or>
         normalized_sum to01 e row = int (length row) - int (count_list row 1)"
proof (cases e)
  case ZeroOne
  then have "set row \<subseteq> {1, 0}" using assms(1) by auto
  then show ?thesis
    using two_valued_sum [of row 1 0 sint] ZeroOne by (simp add: normalized_sum_def)
next
  case PlusMinusOne
  then have "set row \<subseteq> {1, - 1}" using assms(1) by auto
  then have "sum_list (map (\<lambda>x. sint (to01 x)) row) =
             int (count_list row 1) * sint (to01 1) +
             (int (length row) - int (count_list row 1)) * sint (to01 (- 1))"
    using two_valued_sum [of row 1 "- 1" "\<lambda>x. sint (to01 x)"] by simp
  then show ?thesis
    using assms(2,3) PlusMinusOne by (auto simp: normalized_sum_def comp_def)
qed

lemma score_facts:
  assumes "s = int c \<or> s = int m - int c" and "c \<le> m"
  shows "\<bar>real m / 2 - real_of_int s\<bar> \<le> real m / 2"
    and "c = m \<or> c = 0 \<Longrightarrow> \<bar>real m / 2 - real_of_int s\<bar> = real m / 2"
    and "2 * c = m \<Longrightarrow> \<bar>real m / 2 - real_of_int s\<bar> = 0"
proof -
  have le: "real c \<le> real m" "0 \<le> real c" using assms(2) by simp_all
  have s: "real_of_int s = real c \<or> real_of_int s = real m - real c"
    using assms(1) by auto
  show "\<bar>real m / 2 - real_of_int s\<bar> \<le> real m / 2"
    using le s by argo
  show "\<bar>real m / 2 - real_of_int s\<bar> = real m / 2" if "c = m \<or> c = 0"
    using that s le by auto
  show "\<bar>real m / 2 - real_of_int s\<bar> = 0" if "2 * c = m"
  proof -
    have "real m = 2 * real c" using that by (metis of_nat_mult of_nat_numeral)
    then show ?thesis using s by auto
  qed
qed

lemma reliabilities_PUF_eq:
  assumes ne: "response_bits \<noteq> []" and rect: "\<forall>row \<in> set response_bits. length row = m"
    and enc: "encoded e response_bits"
    and t1: "to01 1 \<in> {0, 1}" and t2: "to01 (- 1) = 1 - to01 1"
  shows "reliabilities_PUF to01 response_bits =
         Inr (map (\<lambda>row. \<bar>real m / 2 - real_of_int (normalized_sum to01 e row)\<bar>) response_bits)"
proof -
  have arr: "np_array response_bits = Inr response_bits"
    using rect ne by (simp add: np_array_def)
  have sh: "shape1 response_bits = Inr m" "shape1 (map (map to01) response_bits) = Inr m"
    using rect ne by (cases response_bits; simp add: shape1_def)+
  show ?thesis
  proof (cases "\<exists>row \<in> set response_bits. - 1 \<in> set row")
    case True
    then obtain row where row: "row \<in> set response_bits" "- 1 \<in> set row" by blast
    have "(- 1 :: int8) \<noteq> 0" "(- 1 :: int8) \<noteq> 1" by simp_all
    then have "\<not> set row \<subseteq> {0, 1}" using row(2) by blast
    then have "e = PlusMinusOne" using enc row(1) by (cases e) (auto simp: encoded_def)
    then show ?thesis using True
      by (simp add: reliabilities_PUF_def arr sh normalized_sum_def comp_def)
  next
    case False
    have "\<bar>real m / 2 - real_of_int (sum_list (map sint row))\<bar> =
          \<bar>real m / 2 - real_of_int (normalized_sum to01 e row)\<bar>"
      if r: "row \<in> set response_bits" for row
    proof (cases e)
      case ZeroOne
      then show ?thesis by (simp add: normalized_sum_def)
    next
      case PlusMinusOne
      have sub: "set row \<subseteq> {1, - 1}" using enc r PlusMinusOne by (auto simp: encoded_def)
      have "set row \<subseteq> {1}" using sub False r by auto
      then have row: "row = replicate m 1"
        using rect r by (metis replicate_eqI singletonD subsetD)
      have n: "normalized_sum to01 e row = int m * sint (to01 1)"
        using PlusMinusOne by (simp add: normalized_sum_def row sum_list_replicate)
      have "sum_list (map sint row) = int m"
        by (simp add: row sum_list_replicate)
      then show ?thesis using n t1 by auto
    qed
    then show ?thesis using False
      by (simp add: reliabilities_PUF_def arr sh)
  qed
qed

text \<open>
  Claim C6. For a response matrix with one row per challenge and \<open>m\<close> repetition
  columns, given in the \<open>{+1, -1}\<close> or in the \<open>{0, 1}\<close> encoding, the estimator returns
  per challenge \<open>|m/2 - s|\<close>, where \<open>s\<close> is the sum of the row normalised to
  \<open>{0, 1}\<close>. No value exceeds \<open>m/2\<close>; a row whose measurements all agree yields
  \<open>m/2\<close>, and a row of which exactly half the entries are \<open>1\<close> yields 0. The
  normalisation \<open>to01\<close> of the \<open>{+1, -1}\<close> encoding may send either value to 1.
\<close>

theorem reliabilities_PUF_formula:
  assumes "response_bits \<noteq> []" and "\<forall>row \<in> set response_bits. length row = m"
    and "encoded e response_bits"
    and "to01 1 \<in> {0, 1}" and "to01 (- 1) = 1 - to01 1"
  shows "reliabilities_PUF to01 response_bits = Inr (map (score to01 e m) response_bits) \<and>
         (\<forall>row \<in> set response_bits.
            score to01 e m row \<le> real m / 2 \<and>
            ((\<exists>v. row = replicate m v) \<longrightarrow> score to01 e m row = real m / 2) \<and>
            (2 * count_list row 1 = m \<longrightarrow> score to01 e m row = 0))"
proof (intro conjI ballI impI)
  show "reliabilities_PUF to01 response_bits = Inr (map (score to01 e m) response_bits)"
    using reliabilities_PUF_eq [OF assms] by (simp add: score_def [abs_def])
next
  fix row assume r: "row \<in> set response_bits"
  have len: "length row = m" using assms(2) r by simp
  have "set row \<subseteq> (case e of PlusMinusOne \<Rightarrow> {1, - 1} | ZeroOne \<Rightarrow> {0, 1})"
    using assms(3) r by (simp add: encoded_def)
  then have s: "normalized_sum to01 e row = int (count_list row 1) \<or>
                normalized_sum to01 e row = int m - int (count_list row 1)"
    using normalized_sum_count [of row e to01] assms(4,5) len by simp
  have c: "count_list row 1 \<le> m"
    using count_list_le_length [of row 1] len by simp
  show "score to01 e m row \<le> real m / 2"
    unfolding score_def by (rule score_facts(1) [OF s c])
  show "score to01 e m row = real m / 2" if "\<exists>v. row = replicate m v"
  proof -
    from that obtain v where "row = replicate m v" ..
    then have "count_list row 1 = m \<or> count_list row 1 = 0"
      by (simp add: count_list_replicate)
    then show ?thesis unfolding score_def by (rule score_facts(2) [OF s c])
  qed
  show "score to01 e m row = 0" if "2 * count_list row 1 = m"
    unfolding score_def using that by (rule score_facts(3) [OF s c])
qed

theorem reliabilities_PUF_formula_witness:
  "reliabilities_PUF (\<lambda>x. if x = 1 then 0 else 1)
     [[1, 1, 1, 1], [- 1, - 1, - 1, - 1], [1, - 1, 1, - 1], [- 1, - 1, - 1, 1]] =
     Inr [2, 2, 0, 1] \<and>
   score (\<lambda>x. if x = 1 then 0 else 1) PlusMinusOne 4 [1, 1, 1, 1] = 2 \<and>
   score (\<lambda>x. if x = 1 then 0 else 1) PlusMinusOne 4 [1, - 1, 1, - 1] = 0"
  using reliabilities_PUF_formula [of
      "[[1, 1, 1, 1], [- 1, - 1, - 1, - 1], [1, - 1, 1, - 1], [- 1, - 1, - 1, 1]]" 4
      PlusMinusOne "\<lambda>x. if x = 1 then 0 else 1"]
  by (simp add: encoded_def score_def normalized_sum_def)

subsection \<open>The objective\<close>

lemma sum_squares_centered: "sum_squares (centered xs) = sum_sq_dev xs"
  by (simp add: sum_squares_def centered_def sum_sq_dev_def comp_def)

lemma dot_centered:
  "dot (centered ys) (centered xs) = (\<Sum>(a, b) \<leftarrow> zip xs ys. (a - mean xs) * (b - mean ys))"
proof -
  have "zip (centered ys) (centered xs) =
        map (\<lambda>(a, b). (b - mean ys, a - mean xs)) (zip xs ys)"
    by (simp add: centered_def zip_map_map zip_commute [of ys xs] comp_def case_prod_unfold)
  then show ?thesis
    by (simp add: dot_def comp_def case_prod_unfold mult.commute)
qed

lemma sum_sq_dev_nonneg: "0 \<le> sum_sq_dev xs"
  unfolding sum_sq_dev_def by (rule sum_list_nonneg) auto

lemma correlation_column:
  "(if sqrt (sum_squares (centered col) * sum_squares (centered y)) = 0 then None
    else Some (dot (centered y) (centered col) /
               sqrt (sum_squares (centered col) * sum_squares (centered y)))) =
   (if sum_sq_dev col = 0 \<or> sum_sq_dev y = 0 then None else Some (pearson col y))"
  by (simp add: sum_squares_centered dot_centered pearson_def real_sqrt_mult)

lemma tf_pearsonr_eq:
  assumes "\<forall>col \<in> set x. length col = length y"
  shows "tf_pearsonr x y =
         Inr (map (\<lambda>col. if sum_sq_dev col = 0 \<or> sum_sq_dev y = 0 then None
                          else Some (pearson col y)) x)"
  unfolding tf_pearsonr_def Let_def correlation_column using assms by simp

lemma cauchy_schwarz_step:
  fixes a b A B C :: real
  assumes "C\<^sup>2 \<le> A * B" "0 \<le> A" "0 \<le> B"
  shows "(a * b + C)\<^sup>2 \<le> (a\<^sup>2 + A) * (b\<^sup>2 + B)"
proof -
  have "\<bar>C\<bar> \<le> sqrt A * sqrt B"
    using assms by (metis real_sqrt_abs real_sqrt_le_iff real_sqrt_mult)
  then have "\<bar>a * b * C\<bar> \<le> \<bar>a\<bar> * \<bar>b\<bar> * (sqrt A * sqrt B)"
    by (simp add: abs_mult mult_left_mono)
  moreover have "0 \<le> (\<bar>a\<bar> * sqrt B - \<bar>b\<bar> * sqrt A)\<^sup>2" by simp
  then have "2 * (\<bar>a\<bar> * \<bar>b\<bar> * (sqrt A * sqrt B)) \<le> a\<^sup>2 * B + b\<^sup>2 * A"
    using assms(2,3) by (simp add: power2_diff power_mult_distrib algebra_simps)
  ultimately have "2 * (a * b * C) \<le> a\<^sup>2 * B + b\<^sup>2 * A" by linarith
  then show ?thesis using assms(1)
    by (simp add: power2_sum algebra_simps power_mult_distrib)
qed

lemma cauchy_schwarz_list:
  "(\<Sum>(a, b) \<leftarrow> zs. a * b)\<^sup>2 \<le> (\<Sum>(a, b) \<leftarrow> zs. a\<^sup>2) * (\<Sum>(a, b) \<leftarrow> zs. (b::real)\<^sup>2)"
proof (induction zs)
  case Nil
  show ?case by simp
next
  case (Cons z zs)
  obtain a b where z: "z = (a, b)" by (cases z)
  have "0 \<le> (\<Sum>(a, b) \<leftarrow> zs. a\<^sup>2)" "0 \<le> (\<Sum>(a, b) \<leftarrow> zs. b\<^sup>2)"
    by (auto intro!: sum_list_nonneg)
  then show ?case using cauchy_schwarz_step [OF Cons.IH] by (simp add: z)
qed


lemma sum_sq_dev_zip:
  assumes "length xs = length ys"
  shows "(\<Sum>(a, b) \<leftarrow> zip (centered xs) (centered ys). a\<^sup>2) = sum_sq_dev xs"
    and "(\<Sum>(a, b) \<leftarrow> zip (centered xs) (centered ys). b\<^sup>2) = sum_sq_dev ys"
proof -
  have l: "length (centered xs) = length (centered ys)"
    using assms by (simp add: centered_def)
  have "(\<Sum>(a, b) \<leftarrow> zip (centered xs) (centered ys). a\<^sup>2) =
        (\<Sum>a \<leftarrow> map fst (zip (centered xs) (centered ys)). a\<^sup>2)"
    by (simp add: comp_def case_prod_unfold)
  also have "\<dots> = sum_squares (centered xs)"
    using l by (simp add: sum_squares_def)
  finally show "(\<Sum>(a, b) \<leftarrow> zip (centered xs) (centered ys). a\<^sup>2) = sum_sq_dev xs"
    by (simp add: sum_squares_centered)
  have "(\<Sum>(a, b) \<leftarrow> zip (centered xs) (centered ys). b\<^sup>2) =
        (\<Sum>b \<leftarrow> map snd (zip (centered xs) (centered ys)). b\<^sup>2)"
    by (simp add: comp_def case_prod_unfold)
  also have "\<dots> = sum_squares (centered ys)"
    using l by (simp add: sum_squares_def)
  finally show "(\<Sum>(a, b) \<leftarrow> zip (centered xs) (centered ys). b\<^sup>2) = sum_sq_dev ys"
    by (simp add: sum_squares_centered)
qed

lemma covariance_zip:
  "(\<Sum>(a, b) \<leftarrow> zip (centered xs) (centered ys). a * b) =
   (\<Sum>(a, b) \<leftarrow> zip xs ys. (a - mean xs) * (b - mean ys))"
  by (simp add: centered_def zip_map_map comp_def case_prod_unfold)

lemma pearson_le_one:
  assumes "length xs = length ys"
  shows "pearson xs ys \<le> 1"
proof -
  let ?c = "\<Sum>(a, b) \<leftarrow> zip xs ys. (a - mean xs) * (b - mean ys)"
  let ?d = "sqrt (sum_sq_dev xs) * sqrt (sum_sq_dev ys)"
  have "?c\<^sup>2 \<le> sum_sq_dev xs * sum_sq_dev ys"
    using cauchy_schwarz_list [of "zip (centered xs) (centered ys)"]
    by (simp only: covariance_zip sum_sq_dev_zip [OF assms])
  then have "\<bar>?c\<bar> \<le> ?d"
    by (metis real_sqrt_abs real_sqrt_le_iff real_sqrt_mult)
  then have c: "?c \<le> ?d" by simp
  have d: "0 \<le> ?d" by (simp add: sum_sq_dev_nonneg)
  show ?thesis
  proof (cases "?d = 0")
    case True
    show ?thesis unfolding pearson_def True by simp
  next
    case False
    with d have "0 < ?d" by (metis order_le_less)
    then show ?thesis using c by (simp add: pearson_def)
  qed
qed

lemma map2_same: "map2 f (map g xs) (map h xs) = map (\<lambda>x. f (g x) (h x)) xs"
  by (induction xs) auto

lemma objective_eq:
  assumes cur: "self_current_challenges self = Some cs"
    and rows: "\<forall>row \<in> set state. row \<noteq> []"
    and fit: "\<forall>row \<in> set state. \<forall>c \<in> set cs. length (slice_to (self_n self) row) = length c"
    and len: "length (self_puf_reliabilities self) = length cs"
  shows "objective self state =
         Inr (map (\<lambda>candidate.
                if sum_sq_dev (indicator (self_n self) cs candidate) = 0 \<or>
                   sum_sq_dev (self_puf_reliabilities self) = 0
                then None
                else Some \<bar>1 - pearson (indicator (self_n self) cs candidate)
                                 (self_puf_reliabilities self)\<bar>) state)"
proof -
  let ?n = "self_n self" and ?y = "self_puf_reliabilities self"
  have mm: "matmul_T (map (slice_to ?n) state) cs =
            Inr (map (\<lambda>row. map (\<lambda>c. dot (slice_to ?n row) c) cs) state)"
    using fit by (simp add: matmul_T_def comp_def)
  have rm: "reliabilities_MODEL (map (\<lambda>row. map (\<lambda>c. dot (slice_to ?n row) c) cs) state)
              (map last state) =
            Inr (map (\<lambda>row. map (\<lambda>c. last row < \<bar>dot (slice_to ?n row) c\<bar>) cs) state)"
    by (simp add: reliabilities_MODEL_def map2_same comp_def)
  have x: "map (\<lambda>row. map (\<lambda>c. if last row < \<bar>dot (slice_to ?n row) c\<bar> then 1 else 0) cs) state =
           map (indicator ?n cs) state"
    by (simp add: indicator_def)
  have "tf_pearsonr (map (indicator ?n cs) state) ?y =
        Inr (map (\<lambda>candidate.
               if sum_sq_dev (indicator ?n cs candidate) = 0 \<or> sum_sq_dev ?y = 0
               then None else Some (pearson (indicator ?n cs candidate) ?y)) state)"
    using len by (simp add: tf_pearsonr_eq indicator_def comp_def)
  then have tp: "tf_pearsonr
           (map (\<lambda>row. map (\<lambda>c. if last row < \<bar>dot (slice_to ?n row) c\<bar> then 1 else 0) cs) state) ?y =
        Inr (map (\<lambda>candidate.
               if sum_sq_dev (indicator ?n cs candidate) = 0 \<or> sum_sq_dev ?y = 0
               then None else Some (pearson (indicator ?n cs candidate) ?y)) state)"
    by (simp only: x)
  show ?thesis
    using rows by (simp add: objective_def cur mm rm tp comp_def Let_def)
qed

lemma constant_zero_variance: "set xs \<subseteq> {c} \<Longrightarrow> sum_sq_dev xs = 0"
proof (cases "xs = []")
  case True
  then show ?thesis by (simp add: sum_sq_dev_def)
next
  case False
  assume "set xs \<subseteq> {c}"
  then have xs: "xs = replicate (length xs) c"
    by (metis replicate_eqI singletonD subsetD)
  have "sum_list xs = real (length xs) * c"
    by (subst xs) (simp add: sum_list_replicate)
  then have "mean xs = c" using False by (simp add: mean_def)
  then have "map (\<lambda>v. (v - mean xs)\<^sup>2) xs = replicate (length xs) 0"
    by (subst (2) xs) (simp add: map_replicate_const)
  then show ?thesis by (simp add: sum_sq_dev_def sum_list_replicate)
qed

lemma well_shaped:
  assumes rows: "\<forall>row \<in> set state. int (length row) = n + 1"
    and cols: "\<forall>c \<in> set cs. int (length c) = n" and n: "0 \<le> n"
  shows "\<forall>row \<in> set state. row \<noteq> []"
    and "\<forall>row \<in> set state. \<forall>c \<in> set cs. length (slice_to n row) = length c"
proof -
  show "\<forall>row \<in> set state. row \<noteq> []"
    using rows n by auto
  show "\<forall>row \<in> set state. \<forall>c \<in> set cs. length (slice_to n row) = length c"
  proof (intro ballI)
    fix row c assume "row \<in> set state" and "c \<in> set cs"
    then have "int (length row) = n + 1" and "int (length c) = n"
      using rows cols by auto
    then show "length (slice_to n row) = length c"
      using n by (simp add: slice_to_def)
  qed
qed

lemma example_costs:
  "objective example_learner [[2, 2, 0, 3], [1, 1, 0, 5]] = Inr [Some 2, None]"
  by (simp add: objective_def example_learner_def initial_learner_def slice_to_def matmul_T_def dot_def
      reliabilities_MODEL_def tf_pearsonr_def centered_def mean_def sum_squares_def
      power2_eq_square real_sqrt_divide)

lemma example_fields:
  "self_n example_learner = 3" "self_puf_reliabilities example_learner = [0, 1]"
  "self_current_challenges example_learner = Some [[1, 1, 1], [1, - 1, 1]]"
  by (simp_all add: example_learner_def initial_learner_def)

lemma example_indicators:
  "indicator 3 [[1, 1, 1], [1, - 1, 1]] [2, 2, 0, 3] = [1, 0]"
  "indicator 3 [[1, 1, 1], [1, - 1, 1]] [1, 1, 0, 5] = [0, 0]"
  by (simp_all add: indicator_def slice_to_def dot_def)

lemma example_correlation: "pearson [1, 0] [0, 1] = - 1" "sum_sq_dev [1, 0] = 1 / 2"
  "sum_sq_dev [0, 1] = 1 / 2" "sum_sq_dev [0, 0] = 0"
  by (simp_all add: pearson_def sum_sq_dev_def mean_def power2_eq_square real_sqrt_divide)

text \<open>
  Claim C1 as stated fails: a candidate whose indicator vector \<open>[1, 0]\<close> is perfectly
  anticorrelated with the oracle reliabilities \<open>[0, 1]\<close> costs 2, and not \<open>1 - |-1| = 0\<close>.
\<close>

theorem objective_anticorrelation_counterexample:
  "objective example_learner [[2, 2, 0, 3]] = Inr [Some 2] \<and>
   self_current_challenges example_learner = Some [[1, 1, 1], [1, - 1, 1]] \<and>
   self_puf_reliabilities example_learner = [0, 1] \<and>
   indicator (self_n example_learner) [[1, 1, 1], [1, - 1, 1]] [2, 2, 0, 3] = [1, 0] \<and>
   sum_sq_dev [1, 0] \<noteq> 0 \<and> pearson [1, 0] [0, 1] = - 1 \<and> (2 :: real) \<noteq> 1 - \<bar>- 1\<bar>"
proof -
  have "objective example_learner [[2, 2, 0, 3]] = Inr [Some 2]"
    by (simp add: objective_def example_learner_def initial_learner_def slice_to_def matmul_T_def dot_def
        reliabilities_MODEL_def tf_pearsonr_def centered_def mean_def sum_squares_def
        power2_eq_square real_sqrt_divide)
  then show ?thesis
    by (simp add: example_fields example_indicators example_correlation)
qed

text \<open>
  Claim C1, as amended. The objective returns \<open>|1 - r|\<close>, not \<open>1 - |r|\<close>. For a
  population whose rows have length \<open>n + 1\<close>, challenges of length \<open>n\<close> and an oracle
  reliability vector with one entry per challenge, a candidate whose indicator vector
  has nonzero variance, the oracle vector having nonzero variance too, costs
  \<open>1 - r\<close>, where \<open>r \<le> 1\<close> is the Pearson correlation coefficient of the two vectors:
  0 for \<open>r = 1\<close> and 2 for \<open>r = -1\<close>.
\<close>

theorem objective_cost:
  assumes "self_current_challenges self = Some cs"
    and "\<forall>row \<in> set state. int (length row) = self_n self + 1"
    and "\<forall>c \<in> set cs. int (length c) = self_n self"
    and "length (self_puf_reliabilities self) = length cs"
    and "p < length state"
    and "sum_sq_dev (indicator (self_n self) cs (state ! p)) \<noteq> 0"
    and "sum_sq_dev (self_puf_reliabilities self) \<noteq> 0"
  shows "\<exists>costs r. objective self state = Inr costs \<and> length costs = length state \<and>
           r = pearson (indicator (self_n self) cs (state ! p)) (self_puf_reliabilities self) \<and>
           costs ! p = Some (1 - r) \<and> r \<le> 1 \<and>
           (r = - 1 \<longrightarrow> costs ! p = Some 2) \<and> (r = 1 \<longrightarrow> costs ! p = Some 0)"
proof -
  let ?n = "self_n self" and ?y = "self_puf_reliabilities self"
  let ?r = "pearson (indicator ?n cs (state ! p)) ?y"
  have "indicator ?n cs (state ! p) \<noteq> []"
    using assms(6) by (auto simp: sum_sq_dev_def)
  then obtain c where "c \<in> set cs" by (cases cs) (auto simp: indicator_def)
  then have n: "0 \<le> ?n" using assms(3) by force
  have "length (indicator ?n cs (state ! p)) = length ?y"
    using assms(4) by (simp add: indicator_def)
  then have le: "?r \<le> 1" by (rule pearson_le_one)
  have "objective self state =
        Inr (map (\<lambda>candidate.
               if sum_sq_dev (indicator ?n cs candidate) = 0 \<or> sum_sq_dev ?y = 0 then None
               else Some \<bar>1 - pearson (indicator ?n cs candidate) ?y\<bar>) state)"
    using assms(1) well_shaped [OF assms(2,3) n] assms(4) by (rule objective_eq)
  then show ?thesis
    using assms(5,6,7) le by auto
qed

theorem objective_cost_witness:
  "\<exists>costs. objective example_learner [[1, 1, 0, 5], [2, 2, 0, 3]] = Inr costs \<and> length costs = 2 \<and>
     costs ! 1 = Some 2"
  using objective_cost [of example_learner "[[1, 1, 1], [1, - 1, 1]]" "[[1, 1, 0, 5], [2, 2, 0, 3]]" 1]
  by (auto simp: example_fields example_indicators example_correlation)

text \<open>
  Claim C2 as stated fails: the second candidate of this population has the constant
  indicator vector \<open>[0, 0]\<close> and receives NaN (\<open>None\<close>), not a defined cost.
\<close>

theorem objective_constant_indicator_counterexample:
  "objective example_learner [[2, 2, 0, 3], [1, 1, 0, 5]] = Inr [Some 2, None] \<and>
   self_current_challenges example_learner = Some [[1, 1, 1], [1, - 1, 1]] \<and>
   indicator (self_n example_learner) [[1, 1, 1], [1, - 1, 1]] [1, 1, 0, 5] = [0, 0]"
  by (simp add: example_costs example_indicators example_fields)

text \<open>
  Claim C2, as amended. On a population whose rows have length \<open>n + 1\<close>, with
  challenges of length \<open>n\<close> and one oracle reliability per challenge, the evaluation
  does not fail and returns one cost per candidate; the cost of a candidate with a
  constant indicator vector is NaN; and the cost of every candidate is the one it
  receives when evaluated alone, so the costs of the other candidates do not depend on
  the degenerate one.
\<close>

theorem objective_degenerate_candidate:
  assumes "self_current_challenges self = Some cs"
    and "\<forall>row \<in> set state. int (length row) = self_n self + 1"
    and "\<forall>c \<in> set cs. int (length c) = self_n self"
    and "0 \<le> self_n self"
    and "length (self_puf_reliabilities self) = length cs"
  shows "\<exists>costs. objective self state = Inr costs \<and> length costs = length state \<and>
           (\<forall>p < length state.
              ((\<exists>c. set (indicator (self_n self) cs (state ! p)) \<subseteq> {c}) \<longrightarrow> costs ! p = None) \<and>
              objective self [state ! p] = Inr [costs ! p])"
proof -
  let ?n = "self_n self" and ?y = "self_puf_reliabilities self"
  let ?cost = "\<lambda>candidate.
                 if sum_sq_dev (indicator ?n cs candidate) = 0 \<or> sum_sq_dev ?y = 0 then None
                 else Some \<bar>1 - pearson (indicator ?n cs candidate) ?y\<bar>"
  have all: "objective self state = Inr (map ?cost state)"
    using assms(1) well_shaped [OF assms(2,3,4)] assms(5) by (rule objective_eq)
  have one: "objective self [state ! p] = Inr [?cost (state ! p)]" if "p < length state" for p
  proof -
    have "\<forall>row \<in> set [state ! p]. int (length row) = ?n + 1"
      using assms(2) that by simp
    then show ?thesis
      using objective_eq [OF assms(1) well_shaped [OF _ assms(3,4)] assms(5), of "[state ! p]"]
      by simp
  qed
  have deg: "map ?cost state ! p = None"
    if "p < length state" and "\<exists>c. set (indicator ?n cs (state ! p)) \<subseteq> {c}" for p
  proof -
    from that(2) obtain c where "set (indicator ?n cs (state ! p)) \<subseteq> {c}" ..
    then have "sum_sq_dev (indicator ?n cs (state ! p)) = 0"
      by (rule constant_zero_variance)
    then show ?thesis using that(1) by simp
  qed
  have alone: "objective self [state ! p] = Inr [map ?cost state ! p]" if "p < length state" for p
    using one [OF that] that by simp
  show ?thesis
  proof (intro exI conjI)
    show "objective self state = Inr (map ?cost state)" by (rule all)
    show "length (map ?cost state) = length state" by simp
    show "\<forall>p < length state.
            ((\<exists>c. set (indicator ?n cs (state ! p)) \<subseteq> {c}) \<longrightarrow> map ?cost state ! p = None) \<and>
            objective self [state ! p] = Inr [map ?cost state ! p]"
      using deg alone by blast
  qed
qed

theorem objective_degenerate_candidate_witness:
  "\<exists>costs. objective example_learner [[2, 2, 0, 3], [1, 1, 0, 5]] = Inr costs \<and> length costs = 2 \<and>
     costs ! 1 = None \<and> objective example_learner [[2, 2, 0, 3]] = Inr [costs ! 0]"
proof -
  note i = example_fields
  obtain costs where c: "objective example_learner [[2, 2, 0, 3], [1, 1, 0, 5]] = Inr costs"
    "length costs = 2"
    "\<forall>p < 2. ((\<exists>c. set (indicator 3 [[1, 1, 1], [1, - 1, 1]] ([[2, 2, 0, 3], [1, 1, 0, 5]] ! p)) \<subseteq> {c}) \<longrightarrow>
                costs ! p = None) \<and>
             objective example_learner [[[2, 2, 0, 3], [1, 1, 0, 5]] ! p] = Inr [costs ! p]"
    using objective_degenerate_candidate
      [of example_learner "[[1, 1, 1], [1, - 1, 1]]" "[[2, 2, 0, 3], [1, 1, 0, 5]]"]
    by (auto simp: i)
  from c(3) have "(\<exists>c. set (indicator 3 [[1, 1, 1], [1, - 1, 1]] [1, 1, 0, 5]) \<subseteq> {c}) \<longrightarrow> costs ! 1 = None"
    by (metis nth_Cons_0 nth_Cons_Suc One_nat_def one_less_numeral_iff semiring_norm(76))
  then have "costs ! 1 = None" by (simp add: example_indicators)
  moreover from c(3) have "objective example_learner [[2, 2, 0, 3]] = Inr [costs ! 0]"
    by (metis nth_Cons_0 zero_less_numeral)
  ultimately show ?thesis using c(1,2) by simp
qed

subsection \<open>The chain pool\<close>

lemma dot_commute: "dot u v = dot v u"
proof -
  have "map2 (*) u v = map2 (*) v u"
    by (subst zip_commute) (simp add: case_prod_unfold mult.commute)
  then show ?thesis by (simp add: dot_def)
qed

lemma pearsonr_commute: "pearsonr a b = pearsonr b a"
  by (auto simp: pearsonr_def dot_commute mult.commute)

lemma correlated_commute: "correlated a b = correlated b a"
  by (simp add: correlated_def pearsonr_commute)

lemma sum_list_negate: "sum_list (negate a) = - sum_list a"
  by (induction a) (simp_all add: negate_def)

lemma mean_negate: "mean (negate a) = - mean a"
  by (simp add: mean_def sum_list_negate) (simp add: negate_def)

lemma centered_negate: "centered (negate a) = negate (centered a)"
  by (simp add: centered_def mean_negate) (simp add: negate_def)

lemma dot_negate: "dot (negate u) v = - dot u v"
proof (induction u arbitrary: v)
  case Nil
  show ?case by (simp add: dot_def negate_def)
next
  case (Cons x u)
  then show ?case by (cases v) (simp_all add: dot_def negate_def)
qed

lemma sum_squares_negate: "sum_squares (negate u) = sum_squares u"
  by (simp add: sum_squares_def negate_def comp_def)

lemma constant_negate: "(\<forall>v \<in> set (negate a). v = hd (negate a)) = (\<forall>v \<in> set a. v = hd a)"
  by (cases a) (auto simp: negate_def)

lemma pearsonr_negate:
  "pearsonr (negate a) b = map_sum id (map_option uminus) (pearsonr a b)"
proof -
  have l: "length (negate a) = length a" by (simp add: negate_def)
  show ?thesis
    unfolding pearsonr_def l constant_negate centered_negate dot_negate sum_squares_negate
    by simp
qed

lemma correlated_negate: "correlated (negate a) b = correlated a b"
  by (cases "pearsonr a b") (auto simp: correlated_def pearsonr_negate split: option.splits)

lemma chain_is_new_sound:
  "chain_is_new w pool = Inr True \<Longrightarrow> \<forall>v \<in> set pool. \<not> correlated w v"
  by (induction pool) (auto simp: correlated_def split: sum.splits option.splits if_splits)

lemma uncorrelated_append:
  assumes "uncorrelated pool" and "\<forall>v \<in> set pool. \<not> correlated w v"
  shows "uncorrelated (pool @ [w])"
  unfolding uncorrelated_def
proof (intro allI impI)
  fix i j assume i: "i < length (pool @ [w])" and j: "j < length (pool @ [w])" and ne: "i \<noteq> j"
  consider "i < length pool" "j < length pool" | "i = length pool" "j < length pool"
    | "i < length pool" "j = length pool"
    using i j ne by (auto simp: less_Suc_eq)
  then show "\<not> correlated ((pool @ [w]) ! i) ((pool @ [w]) ! j)"
  proof cases
    case 1
    then show ?thesis using assms(1) ne by (simp add: uncorrelated_def nth_append)
  next
    case 2
    then show ?thesis using assms(2) by (simp add: nth_append)
  next
    case 3
    then show ?thesis using assms(2) correlated_commute [of "pool ! i" w] by (simp add: nth_append)
  qed
qed

lemma uncorrelated_flip_first:
  assumes "uncorrelated (first # rest)"
  shows "uncorrelated (negate first # rest)"
  unfolding uncorrelated_def
proof (intro allI impI)
  fix i j assume i: "i < length (negate first # rest)" and j: "j < length (negate first # rest)"
    and ne: "i \<noteq> j"
  then have u: "\<not> correlated ((first # rest) ! i) ((first # rest) ! j)"
    using assms by (simp add: uncorrelated_def)
  show "\<not> correlated ((negate first # rest) ! i) ((negate first # rest) ! j)"
  proof (cases i)
    case 0
    then obtain j' where "j = Suc j'" using ne by (cases j) auto
    then show ?thesis using u 0 by (simp add: correlated_negate)
  next
    case (Suc i')
    show ?thesis
    proof (cases j)
      case 0
      then show ?thesis
        using u Suc correlated_commute [of "rest ! i'" "negate first"]
          correlated_commute [of "rest ! i'" first]
        by (simp add: correlated_negate)
    next
      case (Suc j')
      then show ?thesis using u \<open>i = Suc i'\<close> by simp
    qed
  qed
qed

lemma iteration_pool:
  assumes "iteration search i (self, pool, n_chain) = Inr (self', pool', n_chain')"
  shows "(pool' = pool \<and> n_chain' = n_chain) \<or>
         (\<exists>w. pool' = pool @ [w] \<and> n_chain' = n_chain + 1 \<and> (\<forall>v \<in> set pool. \<not> correlated w v))"
  using assms chain_is_new_sound
  by (auto simp: iteration_def Let_def split: sum.splits if_splits)

lemma iteration_invariant:
  assumes "uncorrelated pool"
    and "iteration search i (self, pool, n_chain) = Inr (self', pool', n_chain')"
  shows "uncorrelated pool'"
  using iteration_pool [OF assms(2)] assms(1) uncorrelated_append by auto

lemma learn_loop_invariant:
  "uncorrelated pool \<Longrightarrow>
   learn_loop search fuel i (self, pool, n_chain) = Some (Inr (self', pool', n_chain')) \<Longrightarrow>
   uncorrelated pool'"
proof (induction fuel arbitrary: i self pool n_chain)
  case 0
  then show ?case by (simp split: if_splits)
next
  case (Suc fuel)
  show ?case
  proof (cases "int n_chain < self_k self")
    case False
    then show ?thesis using Suc.prems by simp
  next
    case True
    then obtain st where it: "iteration search i (self, pool, n_chain) = Inr st"
      and rest: "learn_loop search fuel (Suc i) st = Some (Inr (self', pool', n_chain'))"
      using Suc.prems(2) by (auto split: sum.splits)
    obtain s p n where st: "st = (s, p, n)" by (cases st)
    have "uncorrelated p" using iteration_invariant [OF Suc.prems(1)] it st by simp
    then show ?thesis using Suc.IH rest st by simp
  qed
qed

lemma np_array_Inr: "np_array m = Inr w \<Longrightarrow> w = m"
  by (simp add: np_array_def split: if_splits)

lemma assemble_result:
  assumes "assemble test_model self pool = Inr model"
  shows "\<exists>accuracy. test_model (LTFArray pool (self_transform self) (self_combiner self)) = Inr accuracy \<and>
           (accuracy < 1 / 2 \<longrightarrow> pool \<noteq> [] \<and> weight_array model = negate (hd pool) # tl pool) \<and>
           (\<not> accuracy < 1 / 2 \<longrightarrow> weight_array model = pool)"
  using assms
  by (auto simp: assemble_def Let_def LTFArray_def dest!: np_array_Inr
      split: sum.splits if_splits list.splits)

lemma assemble_invariant:
  assumes "uncorrelated pool" and "assemble test_model self pool = Inr model"
  shows "uncorrelated (weight_array model)"
proof -
  from assemble_result [OF assms(2)] obtain accuracy :: real where
    a: "accuracy < 1 / 2 \<longrightarrow> pool \<noteq> [] \<and> weight_array model = negate (hd pool) # tl pool"
    and b: "\<not> accuracy < 1 / 2 \<longrightarrow> weight_array model = pool" by blast
  show ?thesis
  proof (cases "accuracy < 1 / 2")
    case True
    with a obtain first rest where "pool = first # rest"
      and "weight_array model = negate first # rest" by (cases pool) auto
    then show ?thesis using assms(1) uncorrelated_flip_first by simp
  next
    case False
    then show ?thesis using b assms(1) by simp
  qed
qed

lemma example_pearsonr:
  "pearsonr [1, - 1, 0] [1, - 1, 0] = Inr (Some 1)"
  "pearsonr [1, 1, - 2] [1, - 1, 0] = Inr (Some 0)"
  "pearsonr [1, - 1, 0] [1, 1, - 2] = Inr (Some 0)"
  "pearsonr [- 1, 1, 0] [1, 1, - 2] = Inr (Some 0)"
  by (simp_all add: pearsonr_def centered_def mean_def dot_def sum_squares_def power2_eq_square)

lemma example_loop:
  "learn_loop example_search 3 0 (initial_learner, [], 0) =
     Some (Inr (initial_learner \<lparr> self_current_challenges := Some [[1, 1, 1], [1, - 1, 1]] \<rparr>,
                [[1, - 1, 0], [1, 1, - 2]], 2))"
  by (simp add: numeral_3_eq_3 iteration_def chain_challenges_def initial_learner_def
      example_search_def slice_to_def canonicalize_def negate_def example_pearsonr)

lemma example_learn:
  "learn example_search (\<lambda>m. Inr 0) 3 initial_learner =
     Some (Inr (LTFArray [[- 1, 1, 0], [1, 1, - 2]] example_transform ()))"
  by (simp add: learn_def example_loop assemble_def np_array_def negate_def)
    (simp add: initial_learner_def)

lemma loop_reaches_invariant:
  "loop_reaches search learner i st \<Longrightarrow> uncorrelated (fst (snd st)) \<and> length (fst (snd st)) = snd (snd st)"
proof (induction rule: loop_reaches.induct)
  case start
  show ?case by (simp add: uncorrelated_def)
next
  case (pass i self pool n_chain st)
  obtain s p n where st: "st = (s, p, n)" by (cases st)
  have "uncorrelated p"
    using iteration_invariant [of pool search i self n_chain s p n] pass st by simp
  moreover have "length p = n"
    using iteration_pool [of search i self pool n_chain s p n] pass st by auto
  ultimately show ?case by (simp add: st)
qed

lemma example_pass0:
  "iteration example_search 0 (initial_learner, [], 0) = Inr (example_learner, [[1, - 1, 0]], 1)"
  by (simp add: iteration_def chain_challenges_def initial_learner_def example_learner_def
      example_search_def slice_to_def canonicalize_def negate_def)

lemma example_pass1:
  "iteration example_search 1 (example_learner, [[1, - 1, 0]], 1) = Inr (example_learner, [[1, - 1, 0]], 1)"
  by (simp add: iteration_def chain_challenges_def initial_learner_def example_learner_def
      example_search_def slice_to_def canonicalize_def negate_def example_pearsonr)

lemma example_reaches:
  "loop_reaches example_search initial_learner 2 (example_learner, [[1, - 1, 0]], 1)"
proof -
  have k: "self_k initial_learner = 2" "self_k example_learner = 2"
    by (simp_all add: initial_learner_def example_learner_def)
  have "loop_reaches example_search initial_learner (Suc 0) (example_learner, [[1, - 1, 0]], 1)"
    using loop_reaches.pass [OF loop_reaches.start _ example_pass0] k by simp
  then have "loop_reaches example_search initial_learner (Suc (Suc 0)) (example_learner, [[1, - 1, 0]], 1)"
    using loop_reaches.pass [OF _ _ example_pass1 [unfolded One_nat_def]] k by simp
  then show ?thesis by (simp add: numeral_2_eq_2)
qed

lemma example_pass2:
  "iteration example_search 2 (example_learner, [[1, - 1, 0]], 1) =
     Inr (example_learner, [[1, - 1, 0], [1, 1, - 2]], 2)"
  by (simp add: iteration_def chain_challenges_def initial_learner_def example_learner_def
      example_search_def slice_to_def canonicalize_def negate_def example_pearsonr)

text \<open>
  Claim C3. The pool never holds two members, at different positions, whose absolute
  Pearson correlation exceeds 0.5. This holds in every state that the loop of \<^verbatim>\<open>learn\<close>
  reaches: a pass of the loop either leaves the pool as it is or appends a chain that
  is correlated with no member, and so keeps the property. The pool that the loop ends
  with has it, and so has the weight matrix of the returned model, whether or not the
  first chain was negated, since the absolute correlation does not change under
  negation.
\<close>

theorem pool_never_holds_correlated_chains:
  "(loop_reaches search learner i (self, pool, n_chain) \<longrightarrow> uncorrelated pool) \<and>
   (uncorrelated pool \<and> iteration search i (self, pool, n_chain) = Inr (self', pool', n_chain') \<longrightarrow>
      uncorrelated pool' \<and>
      (pool' = pool \<or> (\<exists>w. pool' = pool @ [w] \<and> (\<forall>v \<in> set pool. \<not> correlated w v)))) \<and>
   (learn_loop search fuel 0 (learner, [], 0) = Some (Inr (learner', final_pool, n)) \<longrightarrow>
      uncorrelated final_pool) \<and>
   (learn search test_model fuel learner = Some (Inr model) \<longrightarrow>
      uncorrelated (weight_array model)) \<and>
   correlated (negate a) b = correlated a b"
proof (intro conjI impI)
  have e: "uncorrelated []" by (simp add: uncorrelated_def)
  show "uncorrelated pool" if "loop_reaches search learner i (self, pool, n_chain)"
    using loop_reaches_invariant [OF that] by simp
  show "uncorrelated pool'"
    if "uncorrelated pool \<and> iteration search i (self, pool, n_chain) = Inr (self', pool', n_chain')"
    using that iteration_invariant by blast
  show "pool' = pool \<or> (\<exists>w. pool' = pool @ [w] \<and> (\<forall>v \<in> set pool. \<not> correlated w v))"
    if "uncorrelated pool \<and> iteration search i (self, pool, n_chain) = Inr (self', pool', n_chain')"
    using that iteration_pool by blast
  show "uncorrelated final_pool"
    if "learn_loop search fuel 0 (learner, [], 0) = Some (Inr (learner', final_pool, n))"
    using learn_loop_invariant [OF e that] .
  show "uncorrelated (weight_array model)"
    if "learn search test_model fuel learner = Some (Inr model)"
  proof -
    from that obtain s p m where l: "learn_loop search fuel 0 (learner, [], 0) = Some (Inr (s, p, m))"
      and a: "assemble test_model s p = Inr model"
      by (auto simp: learn_def split: option.splits sum.splits)
    show ?thesis using assemble_invariant [OF learn_loop_invariant [OF e l] a] .
  qed
  show "correlated (negate a) b = correlated a b" by (rule correlated_negate)
qed

theorem pool_never_holds_correlated_chains_witness:
  "loop_reaches example_search initial_learner 2 (example_learner, [[1, - 1, 0]], 1) \<and>
   uncorrelated [[1, - 1, 0]] \<and>
   iteration example_search 2 (example_learner, [[1, - 1, 0]], 1) =
     Inr (example_learner, [[1, - 1, 0], [1, 1, - 2]], 2) \<and>
   learn_loop example_search 3 0 (initial_learner, [], 0) =
     Some (Inr (example_learner, [[1, - 1, 0], [1, 1, - 2]], 2)) \<and>
   uncorrelated [[1, - 1, 0], [1, 1, - 2]] \<and>
   learn example_search (\<lambda>m. Inr 0) 3 initial_learner =
     Some (Inr (LTFArray [[- 1, 1, 0], [1, 1, - 2]] example_transform ())) \<and>
   uncorrelated [[- 1, 1, 0], [1, 1, - 2]] \<and>
   correlated [1, - 1, 0] [1, - 1, 0] \<and> \<not> correlated [1, 1, - 2] [1, - 1, 0]"
proof -
  note inv = pool_never_holds_correlated_chains [where search = example_search
      and learner = initial_learner and i = 2 and self = example_learner
      and pool = "[[1, - 1, 0]]" and n_chain = 1 and self' = example_learner
      and pool' = "[[1, - 1, 0], [1, 1, - 2]]" and n_chain' = 2 and fuel = 3
      and learner' = example_learner and final_pool = "[[1, - 1, 0], [1, 1, - 2]]" and n = 2
      and test_model = "\<lambda>m. Inr 0"
      and model = "LTFArray [[- 1, 1, 0], [1, 1, - 2]] example_transform ()"]
  have loop: "learn_loop example_search 3 0 (initial_learner, [], 0) =
                Some (Inr (example_learner, [[1, - 1, 0], [1, 1, - 2]], 2))"
    by (simp add: example_loop example_learner_def)
  have one: "uncorrelated [[1, - 1, 0]]"
    using inv example_reaches by blast
  have two: "uncorrelated [[1, - 1, 0], [1, 1, - 2]]"
    using inv one example_pass2 by blast
  have "weight_array (LTFArray [[- 1, 1, 0], [1, 1, - 2]] example_transform ()) =
        [[- 1, 1, 0], [1, 1, - 2]]"
    by (simp add: LTFArray_def)
  then have three: "uncorrelated [[- 1, 1, 0], [1, 1, - 2]]"
    using inv example_learn by metis
  have "correlated [1, - 1, 0] [1, - 1, 0]" "\<not> correlated [1, 1, - 2] [1, - 1, 0]"
    by (simp_all add: correlated_def example_pearsonr)
  then show ?thesis
    using example_reaches one example_pass2 loop two example_learn three by simp
qed

text \<open>
  Claim C8. Whenever \<^verbatim>\<open>learn\<close> returns a model, the loop has ended with some pool and
  the model built from it has been tested once. If that accuracy is below 0.5, the
  returned weight matrix is the pool with its first chain negated; otherwise it is the
  pool itself. In both cases all chains after the first are those of the pool. The
  accuracy of the rebuilt model is not looked at: the result is the same whatever
  \<^verbatim>\<open>test_model\<close> would say about it, so there is no second negation.
\<close>

theorem orientation_applied_once:
  assumes "learn search test_model fuel learner = Some (Inr model)"
  shows "\<exists>self' pool n_chain accuracy.
           learn_loop search fuel 0 (learner, [], 0) = Some (Inr (self', pool, n_chain)) \<and>
           test_model (LTFArray pool (self_transform self') (self_combiner self')) = Inr accuracy \<and>
           (accuracy < 1 / 2 \<longrightarrow> pool \<noteq> [] \<and> weight_array model = negate (hd pool) # tl pool) \<and>
           (\<not> accuracy < 1 / 2 \<longrightarrow> weight_array model = pool) \<and>
           tl (weight_array model) = tl pool"
proof -
  from assms obtain s p m where l: "learn_loop search fuel 0 (learner, [], 0) = Some (Inr (s, p, m))"
    and a: "assemble test_model s p = Inr model"
    by (auto simp: learn_def split: option.splits sum.splits)
  from assemble_result [OF a] obtain accuracy :: real where
    t: "test_model (LTFArray p (self_transform s) (self_combiner s)) = Inr accuracy"
    and f: "accuracy < 1 / 2 \<longrightarrow> p \<noteq> [] \<and> weight_array model = negate (hd p) # tl p"
    and g: "\<not> accuracy < 1 / 2 \<longrightarrow> weight_array model = p" by blast
  have "tl (weight_array model) = tl p" using f g by (cases "accuracy < 1 / 2") auto
  then show ?thesis using l t f g by blast
qed

theorem orientation_applied_once_witness:
  "learn example_search (\<lambda>m. Inr 0) 3 initial_learner =
     Some (Inr (LTFArray [[- 1, 1, 0], [1, 1, - 2]] example_transform ())) \<and>
   learn_loop example_search 3 0 (initial_learner, [], 0) =
     Some (Inr (example_learner, [[1, - 1, 0], [1, 1, - 2]], 2)) \<and>
   (\<exists>self' pool n_chain.
      learn_loop example_search 3 0 (initial_learner, [], 0) = Some (Inr (self', pool, n_chain)) \<and>
      pool \<noteq> [] \<and> [[- 1, 1, 0], [1, 1, - 2]] = negate (hd pool) # tl pool)"
proof -
  have "\<exists>self' pool n_chain (accuracy :: real).
          learn_loop example_search 3 0 (initial_learner, [], 0) = Some (Inr (self', pool, n_chain)) \<and>
          Inr 0 = (Inr accuracy :: error + real) \<and>
          (accuracy < 1 / 2 \<longrightarrow>
             pool \<noteq> [] \<and> [[- 1, 1, 0], [1, 1, - 2]] = negate (hd pool) # tl pool)"
    using orientation_applied_once [of example_search "\<lambda>m. Inr 0" 3 initial_learner
        "LTFArray [[- 1, 1, 0], [1, 1, - 2]] example_transform ()"]
    by (simp add: example_learn) (auto simp: LTFArray_def)
  then show ?thesis
    by (auto simp: example_learn example_loop example_learner_def)
qed

subsection \<open>Construction of the learner\<close>



lemma chain_challenges_length:
  "chain_challenges lin j = Inr cs \<Longrightarrow> length cs = length lin"
  by (auto simp: chain_challenges_def split: if_splits)




lemma example_init:
  "init example_to01 example_zeros example_training_set 2 3 example_transform () 3 (1 / 100) 10 1 () =
     Inr initial_learner"
  by (simp add: init_def reliabilities_PUF_def np_array_def shape1_def example_to01_def
      example_zeros_def example_training_set_def example_transform_def initial_learner_def
      numeral_2_eq_2 numeral_3_eq_3)





end
